theory Spec2Isabelle
  imports Complex_Main "HOL-Library.Sublist"
begin

section \<open>JavaScript helpers used by the views\<close>

text \<open>
  Strings are character lists. The three string methods the user table calls on its
  search text are written out here over ASCII text:
  \<^item> \<open>String.prototype.toLowerCase\<close> maps \<open>A..Z\<close> to \<open>a..z\<close> and leaves every other
    character alone;
  \<^item> \<open>String.prototype.trim\<close> strips white space (tab, line feed, vertical tab, form
    feed, carriage return, space) from both ends;
  \<^item> \<open>String.prototype.includes\<close> is the contiguous-substring test.
\<close>

definition toLowerCase_char :: "char \<Rightarrow> char" where
  "toLowerCase_char c =
     (let n = (of_char c :: nat) in if 65 \<le> n \<and> n \<le> 90 then char_of (n + 32) else c)"

definition toLowerCase :: "string \<Rightarrow> string" where
  "toLowerCase s = map toLowerCase_char s"

definition isWhiteSpace :: "char \<Rightarrow> bool" where
  "isWhiteSpace c = (let n = (of_char c :: nat) in n = 32 \<or> (9 \<le> n \<and> n \<le> 13))"

definition trim :: "string \<Rightarrow> string" where
  "trim s = rev (dropWhile isWhiteSpace (rev (dropWhile isWhiteSpace s)))"

definition includes_str :: "string \<Rightarrow> string \<Rightarrow> bool" where
  "includes_str s t = sublist t s"

text \<open>
  \<open>Array.prototype.slice(start, end)\<close>: a negative index counts from the end, both
  indices are clamped to the array, and an empty range gives the empty array.
\<close>

definition slice :: "'a list \<Rightarrow> int \<Rightarrow> int \<Rightarrow> 'a list" where
  "slice xs start stop =
     (let len = int (length xs);
          k = (if start < 0 then max (len + start) 0 else min start len);
          final = (if stop < 0 then max (len + stop) 0 else min stop len);
          count = max (final - k) 0
      in take (nat count) (drop (nat k) xs))"

section \<open>The eBook statistics response\<close>

record UserSummary =
  visited_count :: int
  pdf :: int
  pdf_full :: int
  pdf_compressed :: int
  epub :: int
  both :: int
  pdf_only :: int
  epub_only :: int
  kindle :: int

record UserRow =
  id_row :: int
  email :: string
  name :: string
  reward_title :: string
  visited :: bool
  dl_pdf :: bool
  dl_pdf_full :: bool
  dl_pdf_compressed :: bool
  dl_epub :: bool
  dl_kindle :: bool

record EbookStatsResponse =
  ok :: bool
  generated_at :: string
  window_days :: int
  user_summary :: UserSummary
  users :: "UserRow list"

datatype Filter =
  F_all | F_visited | F_pdf | F_pdf_full | F_pdf_compressed | F_epub | F_both | F_kindle

definition WINDOW_DAYS :: int where
  "WINDOW_DAYS = 30"

definition PAGE_SIZE :: int where
  "PAGE_SIZE = 20"

section \<open>Filtering the user rows (EbookStats.tsx)\<close>

text \<open>\<open>data?.users ?? []\<close>: the rows of the snapshot, or no rows while there is none.\<close>

definition users_or_empty :: "EbookStatsResponse option \<Rightarrow> UserRow list" where
  "users_or_empty data = (case data of None \<Rightarrow> [] | Some d \<Rightarrow> users d)"

text \<open>
  The callback handed to \<open>filter\<close>: one early \<open>return false\<close> per category, then
  the search test, which is skipped when the trimmed lower-case search text is empty.
\<close>

definition keep_user :: "Filter \<Rightarrow> string \<Rightarrow> UserRow \<Rightarrow> bool" where
  "keep_user flt searchLower u =
     (if flt = F_visited \<and> \<not> visited u then False
      else if flt = F_pdf \<and> \<not> dl_pdf u then False
      else if flt = F_pdf_full \<and> \<not> dl_pdf_full u then False
      else if flt = F_pdf_compressed \<and> \<not> dl_pdf_compressed u then False
      else if flt = F_epub \<and> \<not> dl_epub u then False
      else if flt = F_both \<and> \<not> (dl_pdf u \<and> dl_epub u) then False
      else if flt = F_kindle \<and> \<not> dl_kindle u then False
      else if searchLower \<noteq> [] then
        (let matchEmail = includes_str (toLowerCase (email u)) searchLower;
             matchName = includes_str (toLowerCase (name u)) searchLower
         in if \<not> matchEmail \<and> \<not> matchName then False else True)
      else True)"

definition searchLower_of :: "string \<Rightarrow> string" where
  "searchLower_of search = trim (toLowerCase search)"

definition filteredUsers :: "EbookStatsResponse option \<Rightarrow> Filter \<Rightarrow> string \<Rightarrow> UserRow list" where
  "filteredUsers data flt search =
     filter (keep_user flt (searchLower_of search)) (users_or_empty data)"

text \<open>
  The earlier revision of the view (five categories, no search box) kept in the
  repository: the callback returns the flag of the chosen category, and the last
  line is the conjunction for \<open>both\<close>. It reads only \<open>visited\<close>, \<open>dl_pdf\<close> and
  \<open>dl_epub\<close>, so it is written over the same row record.
\<close>

datatype Filter_v1 = V1_all | V1_visited | V1_pdf | V1_epub | V1_both

definition keep_user_v1 :: "Filter_v1 \<Rightarrow> UserRow \<Rightarrow> bool" where
  "keep_user_v1 flt u =
     (if flt = V1_all then True
      else if flt = V1_visited then visited u
      else if flt = V1_pdf then dl_pdf u
      else if flt = V1_epub then dl_epub u
      else dl_pdf u \<and> dl_epub u)"

definition filteredUsers_v1 :: "EbookStatsResponse option \<Rightarrow> Filter_v1 \<Rightarrow> UserRow list" where
  "filteredUsers_v1 data flt = filter (keep_user_v1 flt) (users_or_empty data)"

section \<open>Pagination (EbookStats.tsx)\<close>

text \<open>
  The page number is an integer: the view sets it to 1, to \<open>Math.max(1, p - 1)\<close> or to
  \<open>Math.min(totalPages, p + 1)\<close> only. \<open>Math.ceil\<close> of the quotient is the ceiling of
  the real quotient.
\<close>

definition totalPages :: "'a list \<Rightarrow> int" where
  "totalPages fu = max 1 \<lceil>real (length fu) / real_of_int PAGE_SIZE\<rceil>"

definition safePage :: "'a list \<Rightarrow> int \<Rightarrow> int" where
  "safePage fu page = min (max 1 page) (totalPages fu)"

definition startIdx :: "'a list \<Rightarrow> int \<Rightarrow> int" where
  "startIdx fu page = (if length fu = 0 then 0 else (safePage fu page - 1) * PAGE_SIZE + 1)"

definition endIdx :: "'a list \<Rightarrow> int \<Rightarrow> int" where
  "endIdx fu page = min (int (length fu)) (safePage fu page * PAGE_SIZE)"

definition pagedUsers :: "'a list \<Rightarrow> int \<Rightarrow> 'a list" where
  "pagedUsers fu page =
     slice fu ((safePage fu page - 1) * PAGE_SIZE) ((safePage fu page - 1) * PAGE_SIZE + PAGE_SIZE)"

section \<open>Fetching statistics (EbookStats.tsx, PledgeManagerStats.tsx)\<close>

text \<open>
  What a \<open>fetch\<close> can come back with: the promise rejects with a thrown value, or
  it resolves to a response carrying \<open>res.ok\<close>, \<open>res.status\<close>, the outcome of
  \<open>res.text()\<close> (\<open>None\<close> when that promise rejects) and the outcome of \<open>res.json()\<close>.
  A thrown value is an \<open>Error\<close> with its message, or something that is no \<open>Error\<close>.
\<close>

datatype thrown = ErrorObj string | NonError

datatype 'r fetch_outcome =
  FetchRejected thrown
| Response bool nat "string option" "thrown + 'r"

fun string_of_nat :: "nat \<Rightarrow> string" where
  "string_of_nat n =
     (if n < 10 then [char_of (48 + n)]
      else string_of_nat (n div 10) @ [char_of (48 + n mod 10)])"

declare string_of_nat.simps [simp del]

definition apiFetch :: "'r fetch_outcome \<Rightarrow> thrown + 'r" where
  "apiFetch outcome =
     (case outcome of
        FetchRejected e \<Rightarrow> Inl e
      | Response res_ok status txt js \<Rightarrow>
          if \<not> res_ok then
            (let text = (case txt of None \<Rightarrow> [] | Some t \<Rightarrow> t)
             in Inl (ErrorObj (if text \<noteq> [] then text
                               else ''Request failed ('' @ string_of_nat status @ '')'')))
          else js)"

datatype http_method = GET | POST

definition endpoint_ebook :: "http_method \<Rightarrow> string" where
  "endpoint_ebook m =
     (if m = GET then ''/api/ebook/stats?days='' @ string_of_nat (nat WINDOW_DAYS)
      else ''/api/ebook/sync?days='' @ string_of_nat (nat WINDOW_DAYS))"

definition endpoint_pledge :: "http_method \<Rightarrow> string" where
  "endpoint_pledge m =
     (if m = GET then ''/api/pledge-manager/stats'' else ''/api/pledge-manager/sync'')"

text \<open>
  The three pieces of component state both views keep for their snapshot, and the
  calls of their setters in the order they happen.
\<close>

datatype 'r setter_call =
  SetData "'r option"
| SetLoading bool
| SetError "string option"

record 'r view_state =
  data :: "'r option"
  loading :: bool
  error :: "string option"
  setter_calls :: "'r setter_call list"

definition view_init :: "'r view_state" where
  "view_init = \<lparr>data = None, loading = True, error = None, setter_calls = []\<rparr>"

definition setData :: "'r option \<Rightarrow> 'r view_state \<Rightarrow> 'r view_state" where
  "setData x v = v\<lparr>data := x, setter_calls := setter_calls v @ [SetData x]\<rparr>"

definition setLoading :: "bool \<Rightarrow> 'r view_state \<Rightarrow> 'r view_state" where
  "setLoading b v = v\<lparr>loading := b, setter_calls := setter_calls v @ [SetLoading b]\<rparr>"

definition setError :: "string option \<Rightarrow> 'r view_state \<Rightarrow> 'r view_state" where
  "setError e v = v\<lparr>error := e, setter_calls := setter_calls v @ [SetError e]\<rparr>"

text \<open>
  \<open>fetchStats\<close> runs up to its \<open>await\<close> (\<open>fetchStats_begin\<close>) and goes on when the
  request has settled (\<open>fetchStats_settle\<close>): \<open>setData(stats)\<close> on success, and in the
  \<open>catch\<close> block \<open>setData(null)\<close> followed by \<open>setError\<close> with the message of the
  error, or the view's fallback text for a thrown value that is no \<open>Error\<close>.
\<close>

definition fallback_ebook :: string where
  "fallback_ebook = ''Failed to load eBook stats''"

definition fallback_pledge :: string where
  "fallback_pledge = ''Failed to load stats''"

definition fetchStats_begin :: "'r view_state \<Rightarrow> 'r view_state" where
  "fetchStats_begin v = setError None v"

definition error_message :: "string \<Rightarrow> thrown \<Rightarrow> string" where
  "error_message fallback e = (case e of ErrorObj m \<Rightarrow> m | NonError \<Rightarrow> fallback)"

definition fetchStats_settle :: "string \<Rightarrow> thrown + 'r \<Rightarrow> 'r view_state \<Rightarrow> 'r view_state" where
  "fetchStats_settle fallback r v =
     (case r of
        Inr stats \<Rightarrow> setData (Some stats) v
      | Inl e \<Rightarrow> setError (Some (error_message fallback e)) (setData None v))"

definition fetchStats :: "string \<Rightarrow> 'r fetch_outcome \<Rightarrow> 'r view_state \<Rightarrow> 'r view_state" where
  "fetchStats fallback outcome v = fetchStats_settle fallback (apiFetch outcome) (fetchStats_begin v)"

text \<open>
  The mount effect: \<open>setLoading(true)\<close>, \<open>await fetchStats('GET')\<close>, then
  \<open>if (!cancelled) setLoading(false)\<close>. The flag \<open>cancelled\<close> is what the effect's
  cleanup has made of it by the time the request settles.
\<close>

definition mount_effect_begin :: "'r view_state \<Rightarrow> 'r view_state" where
  "mount_effect_begin v = fetchStats_begin (setLoading True v)"

definition mount_effect_settle :: "string \<Rightarrow> bool \<Rightarrow> thrown + 'r \<Rightarrow> 'r view_state \<Rightarrow> 'r view_state" where
  "mount_effect_settle fallback cancelled r v =
     (let v' = fetchStats_settle fallback r v
      in if \<not> cancelled then setLoading False v' else v')"

text \<open>
  The refresh effect returns at once for \<open>refreshSeq === 0\<close> (\<open>None\<close>: no request);
  otherwise it awaits \<open>fetchStats('POST')\<close> and, in \<open>finally\<close>, calls
  \<open>onRefreshComplete\<close> unless cancelled. The second component of
  \<open>refresh_effect_settle\<close> says whether \<open>onRefreshComplete\<close> is called.
\<close>

definition refresh_effect_begin :: "int \<Rightarrow> 'r view_state \<Rightarrow> 'r view_state option" where
  "refresh_effect_begin refreshSeq v = (if refreshSeq = 0 then None else Some (fetchStats_begin v))"

definition refresh_effect_settle :: "string \<Rightarrow> bool \<Rightarrow> thrown + 'r \<Rightarrow> 'r view_state \<Rightarrow> 'r view_state \<times> bool" where
  "refresh_effect_settle fallback cancelled r v = (fetchStats_settle fallback r v, \<not> cancelled)"

section \<open>The portal shell (App.tsx)\<close>

text \<open>
  The state of \<open>App\<close> that decides which view is rendered and drives its refreshes.
  The counters are JavaScript numbers holding integers; they are modelled by \<open>int\<close>.
\<close>

datatype auth_state = Checking | Authed | NotAuthed

record app_state =
  auth :: auth_state
  currentPath :: string
  ebookRefreshSeq :: int
  ebookSyncing :: bool
  pledgeRefreshSeq :: int
  pledgeSyncing :: bool

definition app_init :: "string \<Rightarrow> app_state" where
  "app_init pathname =
     \<lparr>auth = Checking, currentPath = pathname,
      ebookRefreshSeq = 0, ebookSyncing = False,
      pledgeRefreshSeq = 0, pledgeSyncing = False\<rparr>"

definition isEbookPage :: "app_state \<Rightarrow> bool" where
  "isEbookPage a = (currentPath a = ''/ebook'')"

definition isPledgePage :: "app_state \<Rightarrow> bool" where
  "isPledgePage a = (currentPath a = ''/pledge-manager'')"

definition isSubPage :: "app_state \<Rightarrow> bool" where
  "isSubPage a = (isEbookPage a \<or> isPledgePage a)"

definition isSyncing :: "app_state \<Rightarrow> bool" where
  "isSyncing a = (if isEbookPage a then ebookSyncing a else pledgeSyncing a)"

definition handleSync :: "app_state \<Rightarrow> app_state" where
  "handleSync a =
     (if isEbookPage a then a\<lparr>ebookSyncing := True, ebookRefreshSeq := ebookRefreshSeq a + 1\<rparr>
      else if isPledgePage a then a\<lparr>pledgeSyncing := True, pledgeRefreshSeq := pledgeRefreshSeq a + 1\<rparr>
      else a)"

text \<open>
  The Sync button exists only on a sub page of the signed-in shell, and carries
  \<open>disabled={isSyncing}\<close>; a click on a button that is absent or disabled does nothing.
\<close>

definition sync_button_rendered :: "app_state \<Rightarrow> bool" where
  "sync_button_rendered a = (auth a = Authed \<and> isSubPage a)"

definition sync_button_disabled :: "app_state \<Rightarrow> bool" where
  "sync_button_disabled a = isSyncing a"

definition click_sync :: "app_state \<Rightarrow> app_state" where
  "click_sync a = (if sync_button_rendered a \<and> \<not> sync_button_disabled a then handleSync a else a)"

text \<open>
  \<open>navigate\<close> compares its argument with \<open>window.location.pathname\<close>, which the shell
  keeps equal to \<open>currentPath\<close>: both are set together by \<open>navigate\<close>, and the
  \<open>popstate\<close> listener copies the one into the other.
\<close>

definition navigate :: "string \<Rightarrow> app_state \<Rightarrow> app_state" where
  "navigate path a = (if path = currentPath a then a else a\<lparr>currentPath := path\<rparr>)"

definition onPopState :: "string \<Rightarrow> app_state \<Rightarrow> app_state" where
  "onPopState pathname a = a\<lparr>currentPath := pathname\<rparr>"

datatype view_kind = EbookView | PledgeView

text \<open>The \<open>onRefreshComplete\<close> callback \<open>App\<close> hands to each view.\<close>

definition onRefreshComplete :: "view_kind \<Rightarrow> app_state \<Rightarrow> app_state" where
  "onRefreshComplete k a =
     (case k of EbookView \<Rightarrow> a\<lparr>ebookSyncing := False\<rparr> | PledgeView \<Rightarrow> a\<lparr>pledgeSyncing := False\<rparr>)"

definition rendered_view :: "app_state \<Rightarrow> view_kind option" where
  "rendered_view a =
     (if auth a \<noteq> Authed then None
      else if isEbookPage a then Some EbookView
      else if isPledgePage a then Some PledgeView
      else None)"

definition refreshSeq_prop :: "app_state \<Rightarrow> view_kind \<Rightarrow> int" where
  "refreshSeq_prop a k = (case k of EbookView \<Rightarrow> ebookRefreshSeq a | PledgeView \<Rightarrow> pledgeRefreshSeq a)"

section \<open>A mounted view and its requests\<close>

text \<open>
  A mounted view instance: its state and the requests it has issued that have not
  settled yet. Each request remembers the effect that issued it and the \<open>cancelled\<close>
  variable of that effect run. A cleanup sets the variable; it does not abort the
  request, which stays in flight until it settles.
\<close>

datatype effect_origin = MountEffect | RefreshEffect

record request =
  req_method :: http_method
  origin :: effect_origin
  req_cancelled :: bool

record 'r view_inst =
  kind :: view_kind
  ui :: "'r view_state"
  requests :: "request list"

record 'r system =
  app :: app_state
  view :: "'r view_inst option"

definition fallback_of :: "view_kind \<Rightarrow> string" where
  "fallback_of k = (case k of EbookView \<Rightarrow> fallback_ebook | PledgeView \<Rightarrow> fallback_pledge)"

text \<open>Mounting runs both effects, in the order they are declared.\<close>

definition mount_view :: "view_kind \<Rightarrow> int \<Rightarrow> 'r view_inst" where
  "mount_view k refreshSeq =
     (let v1 = mount_effect_begin view_init;
          r1 = [\<lparr>req_method = GET, origin = MountEffect, req_cancelled = False\<rparr>]
      in case refresh_effect_begin refreshSeq v1 of
           None \<Rightarrow> \<lparr>kind = k, ui = v1, requests = r1\<rparr>
         | Some v2 \<Rightarrow>
             \<lparr>kind = k, ui = v2,
              requests = r1 @ [\<lparr>req_method = POST, origin = RefreshEffect, req_cancelled = False\<rparr>]\<rparr>)"

text \<open>
  A changed \<open>refreshSeq\<close> prop runs the cleanup of the previous refresh effect and
  then the effect again.
\<close>

definition rerun_refresh_effect :: "int \<Rightarrow> 'r view_inst \<Rightarrow> 'r view_inst" where
  "rerun_refresh_effect refreshSeq inst =
     (let cleaned = map (\<lambda>r. if origin r = RefreshEffect then r\<lparr>req_cancelled := True\<rparr> else r)
                        (requests inst)
      in case refresh_effect_begin refreshSeq (ui inst) of
           None \<Rightarrow> inst\<lparr>requests := cleaned\<rparr>
         | Some v \<Rightarrow>
             inst\<lparr>ui := v,
                  requests := cleaned @ [\<lparr>req_method = POST, origin = RefreshEffect, req_cancelled = False\<rparr>]\<rparr>)"

text \<open>
  Rendering after \<open>App\<close> went from \<open>a\<close> to \<open>a'\<close>: a view of another kind (or none) replaces
  the mounted one, which is unmounted; the same kind keeps its instance and reruns the
  refresh effect when its counter changed. An unmounted instance leaves the model: all
  its effects are cancelled, so its requests can no longer call \<open>onRefreshComplete\<close>.
\<close>

definition reconcile :: "app_state \<Rightarrow> app_state \<Rightarrow> 'r view_inst option \<Rightarrow> 'r view_inst option" where
  "reconcile a a' vo =
     (case rendered_view a' of
        None \<Rightarrow> None
      | Some k \<Rightarrow>
          (case vo of
             None \<Rightarrow> Some (mount_view k (refreshSeq_prop a' k))
           | Some inst \<Rightarrow>
               if kind inst \<noteq> k then Some (mount_view k (refreshSeq_prop a' k))
               else if refreshSeq_prop a' k \<noteq> refreshSeq_prop a k
                 then Some (rerun_refresh_effect (refreshSeq_prop a' k) inst)
               else Some inst))"

definition settle :: "nat \<Rightarrow> 'r fetch_outcome \<Rightarrow> 'r system \<Rightarrow> 'r system" where
  "settle i outcome s =
     (case view s of
        None \<Rightarrow> s
      | Some inst \<Rightarrow>
          if i < length (requests inst) then
            (let r = requests inst ! i;
                 rest = take i (requests inst) @ drop (Suc i) (requests inst);
                 res = apiFetch outcome;
                 fb = fallback_of (kind inst)
             in case origin r of
                  MountEffect \<Rightarrow>
                    s\<lparr>view := Some (inst\<lparr>ui := mount_effect_settle fb (req_cancelled r) res (ui inst),
                                          requests := rest\<rparr>)\<rparr>
                | RefreshEffect \<Rightarrow>
                    (case refresh_effect_settle fb (req_cancelled r) res (ui inst) of
                       (v', callback) \<Rightarrow>
                         \<lparr>app = (if callback then onRefreshComplete (kind inst) (app s) else app s),
                          view = Some (inst\<lparr>ui := v', requests := rest\<rparr>)\<rparr>))
          else s)"

datatype 'r event =
  ClickSync
| Navigate string
| PopState string
| SetAuth auth_state
| Settle nat "'r fetch_outcome"

definition app_event :: "app_state \<Rightarrow> 'r system \<Rightarrow> 'r system" where
  "app_event a' s = \<lparr>app = a', view = reconcile (app s) a' (view s)\<rparr>"

fun step :: "'r event \<Rightarrow> 'r system \<Rightarrow> 'r system" where
  "step ClickSync s = app_event (click_sync (app s)) s"
| "step (Navigate path) s = app_event (navigate path (app s)) s"
| "step (PopState pathname) s = app_event (onPopState pathname (app s)) s"
| "step (SetAuth x) s = app_event ((app s)\<lparr>auth := x\<rparr>) s"
| "step (Settle i outcome) s = settle i outcome s"

definition run :: "'r event list \<Rightarrow> 'r system \<Rightarrow> 'r system" where
  "run es s = foldl (\<lambda>s e. step e s) s es"

definition system_init :: "string \<Rightarrow> 'r system" where
  "system_init pathname = \<lparr>app = app_init pathname, view = None\<rparr>"

definition refreshes_in_flight :: "'r system \<Rightarrow> nat" where
  "refreshes_in_flight s =
     (case view s of
        None \<Rightarrow> 0
      | Some inst \<Rightarrow> length (filter (\<lambda>r. req_method r = POST) (requests inst)))"

section \<open>Completion percentage (PledgeManagerStats.tsx)\<close>

record Summary =
  total_users :: int
  users_with_address :: int

record PledgeManagerResponse =
  pm_ok :: bool
  pm_generated_at :: string
  summary :: Summary

text \<open>\<open>data?.summary\<close>.\<close>

definition summary_of :: "PledgeManagerResponse option \<Rightarrow> Summary option" where
  "summary_of d = map_option summary d"

text \<open>
  The arithmetic of the expression is that of JavaScript numbers (IEEE doubles, with
  their rounding, infinities and \<open>NaN\<close>), and \<open>Number.prototype.toFixed\<close> is a
  built-in. The division, the multiplication by a constant and \<open>toFixed\<close> (number,
  digits) are therefore parameters, over any type \<open>'n\<close> of numbers. The two counts
  are the integers of the JSON response; reading them as numbers is part of the
  division that takes them. The guard compares \<open>total_users\<close> with 0, which reading
  it as a number does not change.
\<close>

definition percentage ::
  "(int \<Rightarrow> int \<Rightarrow> 'n) \<Rightarrow> ('n \<Rightarrow> int \<Rightarrow> 'n) \<Rightarrow> ('n \<Rightarrow> nat \<Rightarrow> string) \<Rightarrow> Summary option \<Rightarrow> string" where
  "percentage num_div num_mul toFixed s =
     (case s of
        None \<Rightarrow> ''0''
      | Some r \<Rightarrow>
          if 0 < total_users r
          then toFixed (num_mul (num_div (users_with_address r) (total_users r)) 100) 1
          else ''0'')"

text \<open>
  For running examples: \<open>toFixed\<close> of a finite number below \<open>10^21\<close> in magnitude,
  given by its exact value. It takes the nearest multiple of the requested decimal
  unit (the larger of two equally near ones) of the magnitude, pads with zeros and
  puts the sign in front.
\<close>

definition pad_zeros :: "nat \<Rightarrow> string \<Rightarrow> string" where
  "pad_zeros w t = replicate (w - length t) (CHR ''0'') @ t"

definition toFixed_exact :: "rat \<Rightarrow> nat \<Rightarrow> string" where
  "toFixed_exact q d =
     (let n = nat \<lfloor>\<bar>q\<bar> * 10 ^ d + 1 / 2\<rfloor>;
          m = pad_zeros (d + 1) (string_of_nat n);
          k = length m - d
      in (if q < 0 then ''-'' else []) @ take k m @ (if d = 0 then [] else ''.'' @ drop k m))"

section \<open>Snapshot cache with single-flight refresh\<close>

text \<open>
  Modelled from the spec: the server side (Snapshot Cache, Aggregator, Event Store
  Reader) is not among the sources. The spec describes the cache as a map from Report
  Key to a shared, awaitable future: a \<open>refresh\<close> call that finds no refresh in progress
  for its key starts one Aggregator recomputation; a call that arrives while one is
  pending attaches to it; when the recomputation completes, the stored snapshot is
  swapped and every attached call resolves to that snapshot.

  \<open>flights\<close> holds, per key, the calls attached to the pending recomputation;
  \<open>started\<close> counts the recomputations started per key; \<open>resolved\<close> is what each call
  (key and caller) resolved to.
\<close>

record ('k, 's) cache =
  stored :: "'k \<rightharpoonup> 's"
  flights :: "'k \<rightharpoonup> nat list"
  started :: "'k \<Rightarrow> nat"
  resolved :: "('k \<times> nat) \<rightharpoonup> 's"

definition cache_init :: "('k, 's) cache" where
  "cache_init = \<lparr>stored = Map.empty, flights = Map.empty, started = (\<lambda>_. 0), resolved = Map.empty\<rparr>"

text \<open>
  Modelled from the spec: \<open>refresh(key)\<close> of the absent Snapshot Cache, as the
  call arrives. It starts a recomputation only when none is pending for the key.
\<close>

definition refresh_call :: "'k \<Rightarrow> nat \<Rightarrow> ('k, 's) cache \<Rightarrow> ('k, 's) cache" where
  "refresh_call k c st =
     (case flights st k of
        None \<Rightarrow> st\<lparr>flights := (flights st)(k \<mapsto> [c]), started := (started st)(k := started st k + 1)\<rparr>
      | Some ws \<Rightarrow> st\<lparr>flights := (flights st)(k \<mapsto> ws @ [c])\<rparr>)"

text \<open>
  Modelled from the spec: completion of the pending recomputation of the absent
  Snapshot Cache. The snapshot is swapped in and handed to every attached call.
\<close>

definition refresh_done :: "'k \<Rightarrow> 's \<Rightarrow> ('k, 's) cache \<Rightarrow> ('k, 's) cache" where
  "refresh_done k snap st =
     (case flights st k of
        None \<Rightarrow> st
      | Some ws \<Rightarrow>
          st\<lparr>stored := (stored st)(k \<mapsto> snap),
             flights := (flights st)(k := None),
             resolved := foldl (\<lambda>m c. m((k, c) \<mapsto> snap)) (resolved st) ws\<rparr>)"

datatype ('k, 's) cache_event = Call 'k nat | Done 'k 's

fun cache_step :: "('k, 's) cache_event \<Rightarrow> ('k, 's) cache \<Rightarrow> ('k, 's) cache" where
  "cache_step (Call k c) st = refresh_call k c st"
| "cache_step (Done k snap) st = refresh_done k snap st"

definition cache_run :: "('k, 's) cache_event list \<Rightarrow> ('k, 's) cache \<Rightarrow> ('k, 's) cache" where
  "cache_run es st = foldl (\<lambda>st e. cache_step e st) st es"

text \<open>
  The callers of \<open>refresh(k)\<close> in a schedule, and the schedules in which all of them
  are concurrent: no recomputation for \<open>k\<close> completes in between.
\<close>

fun callers_of :: "'k \<Rightarrow> ('k, 's) cache_event list \<Rightarrow> nat list" where
  "callers_of k [] = []"
| "callers_of k (Call k' c # es) = (if k' = k then c # callers_of k es else callers_of k es)"
| "callers_of k (Done k' snap # es) = callers_of k es"

fun no_completion :: "'k \<Rightarrow> ('k, 's) cache_event list \<Rightarrow> bool" where
  "no_completion k [] = True"
| "no_completion k (Call k' c # es) = no_completion k es"
| "no_completion k (Done k' snap # es) = (k' \<noteq> k \<and> no_completion k es)"

section \<open>Cookie policy\<close>

text \<open>
  Modelled from the spec: the server code that sets the cookie is not among the
  sources; the README notes on \<open>COOKIE_DOMAIN\<close> say the same as the spec.
  \<open>attributesFor(config)\<close>: a domain that is set gives \<open>secure = true\<close> and
  \<open>sameSite = None\<close>; no domain gives \<open>secure = false\<close> and \<open>sameSite = Lax\<close>.
\<close>

datatype same_site = SameSite_Lax | SameSite_None

record config =
  cookie_domain :: "string option"

record cookie_attributes =
  attr_domain :: "string option"
  secure :: bool
  sameSite :: same_site

text \<open>
  Modelled from the spec: \<open>attributesFor\<close> of the absent Cookie Policy.
\<close>

definition attributesFor :: "config \<Rightarrow> cookie_attributes" where
  "attributesFor cfg =
     (case cookie_domain cfg of
        Some d \<Rightarrow> \<lparr>attr_domain = Some d, secure = True, sameSite = SameSite_None\<rparr>
      | None \<Rightarrow> \<lparr>attr_domain = None, secure = False, sameSite = SameSite_Lax\<rparr>)"

section \<open>Example inputs\<close>

definition example_users :: "UserRow list" where
  "example_users =
     [\<lparr>id_row = 1, email = ''ada@example.com'', name = ''Ada'', reward_title = ''Hardcover'',
       visited = True, dl_pdf = True, dl_pdf_full = True, dl_pdf_compressed = False,
       dl_epub = False, dl_kindle = False\<rparr>,
      \<lparr>id_row = 2, email = ''bob@example.com'', name = ''Bob'', reward_title = ''Digital'',
       visited = False, dl_pdf = False, dl_pdf_full = False, dl_pdf_compressed = False,
       dl_epub = True, dl_kindle = False\<rparr>,
      \<lparr>id_row = 3, email = ''cy@example.com'', name = ''Cy'', reward_title = ''Digital'',
       visited = True, dl_pdf = True, dl_pdf_full = False, dl_pdf_compressed = True,
       dl_epub = True, dl_kindle = True\<rparr>]"

text \<open>Forty-five rows: three pages, the last one with five rows.\<close>

definition example_rows :: "nat list" where
  "example_rows = replicate 45 0"

definition example_stats :: EbookStatsResponse where
  "example_stats =
     \<lparr>ok = True, generated_at = ''2026-01-01T00:00:00Z'', window_days = 30,
      user_summary = \<lparr>visited_count = 2, pdf = 2, pdf_full = 1, pdf_compressed = 1, epub = 2,
                      both = 1, pdf_only = 1, epub_only = 1, kindle = 1\<rparr>,
      users = example_users\<rparr>"

definition example_ready :: "EbookStatsResponse view_state" where
  "example_ready = \<lparr>data = Some example_stats, loading = False, error = None, setter_calls = []\<rparr>"

definition example_failure :: "EbookStatsResponse fetch_outcome" where
  "example_failure = Response False 503 (Some ''event store unreachable'') (Inl NonError)"

definition example_success :: "EbookStatsResponse fetch_outcome" where
  "example_success = Response True 200 None (Inr example_stats)"

text \<open>
  Sign in on \<open>/ebook\<close>, sync once and let both requests settle, leave for the card
  grid, come back, and press Sync again.
\<close>

definition remount_trace :: "EbookStatsResponse event list" where
  "remount_trace =
     [SetAuth Authed, ClickSync, Settle 0 example_success, Settle 0 example_success,
      Navigate ''/'', Navigate ''/ebook'', ClickSync]"

definition example_schedule :: "(string, nat) cache_event list" where
  "example_schedule =
     [Call ''ebook/30'' 1, Call ''pledge-manager'' 7, Call ''ebook/30'' 2,
      Done ''pledge-manager'' 5, Call ''ebook/30'' 3]"

section \<open>Filtering: the composite category\<close>

lemma filter_mem_filter:
  "filter (\<lambda>u. u \<in> set (filter Q xs)) (filter P xs) = filter (\<lambda>u. P u \<and> Q u) xs"
  by (simp add: conj_commute) (rule filter_cong, auto)

lemma searchLower_of_empty: "searchLower_of [] = []"
  by (simp add: searchLower_of_def trim_def toLowerCase_def)

lemma both_is_intersection:
  "filteredUsers resp F_both search =
     filter (\<lambda>u. u \<in> set (filteredUsers resp F_epub search)) (filteredUsers resp F_pdf search)"
  unfolding filteredUsers_def filter_mem_filter
  by (rule filter_cong) (auto simp: keep_user_def Let_def)

lemma both_no_search:
  "filteredUsers resp F_both [] = filter (\<lambda>u. dl_pdf u \<and> dl_epub u) (users_or_empty resp)"
  unfolding filteredUsers_def
  by (rule filter_cong) (auto simp: keep_user_def searchLower_of_empty)

lemma both_within_search:
  "filteredUsers resp F_both search =
     filter (\<lambda>u. dl_pdf u \<and> dl_epub u) (filteredUsers resp F_all search)"
  unfolding filteredUsers_def filter_filter
  by (rule filter_cong) (auto simp: keep_user_def Let_def)

lemma both_v1:
  "filteredUsers_v1 resp V1_both = filter (\<lambda>u. dl_pdf u \<and> dl_epub u) (users_or_empty resp)"
  unfolding filteredUsers_v1_def
  by (rule filter_cong) (auto simp: keep_user_v1_def)

lemma both_v1_is_intersection:
  "filteredUsers_v1 resp V1_both =
     filter (\<lambda>u. u \<in> set (filteredUsers_v1 resp V1_epub)) (filteredUsers_v1 resp V1_pdf)"
  unfolding filteredUsers_v1_def filter_mem_filter
  by (rule filter_cong) (auto simp: keep_user_v1_def)

text \<open>
  Claim C4. The category \<open>both\<close> is the conjunction of the two per-format flags. For
  every snapshot and every search text, the rows kept by the \<open>both\<close> filter are the
  rows of the \<open>pdf\<close>-filtered list that also occur in the \<open>epub\<close>-filtered list (as lists,
  and so as sets their intersection); they are exactly the rows with \<open>dl_pdf\<close> and
  \<open>dl_epub\<close> both true among the rows the search text admits, which with an empty
  search text are all rows of the snapshot. The same holds for the earlier
  revision of the view. The filter reads the rows of the snapshot only: no raw event
  is among its arguments.
\<close>

theorem both_is_conjunction:
  "filteredUsers resp F_both search =
     filter (\<lambda>u. u \<in> set (filteredUsers resp F_epub search)) (filteredUsers resp F_pdf search)
   \<and> set (filteredUsers resp F_both search) =
       set (filteredUsers resp F_pdf search) \<inter> set (filteredUsers resp F_epub search)
   \<and> filteredUsers resp F_both search =
       filter (\<lambda>u. dl_pdf u \<and> dl_epub u) (filteredUsers resp F_all search)
   \<and> filteredUsers resp F_both [] = filter (\<lambda>u. dl_pdf u \<and> dl_epub u) (users_or_empty resp)
   \<and> filteredUsers_v1 resp V1_both = filter (\<lambda>u. dl_pdf u \<and> dl_epub u) (users_or_empty resp)
   \<and> filteredUsers_v1 resp V1_both =
       filter (\<lambda>u. u \<in> set (filteredUsers_v1 resp V1_epub)) (filteredUsers_v1 resp V1_pdf)"
proof -
  have "set (filteredUsers resp F_both search) =
       set (filteredUsers resp F_pdf search) \<inter> set (filteredUsers resp F_epub search)"
    by (subst both_is_intersection) auto
  then show ?thesis
    using both_is_intersection [of resp search] both_within_search [of resp search]
      both_no_search [of resp] both_v1 [of resp] both_v1_is_intersection [of resp]
    by blast
qed

theorem both_is_conjunction_witness:
  "filteredUsers (Some example_stats) F_both [] = [example_users ! 2]
   \<and> filteredUsers_v1 (Some example_stats) V1_both = [example_users ! 2]"
proof -
  have h: "filter (\<lambda>u. dl_pdf u \<and> dl_epub u) (users_or_empty (Some example_stats))
             = [example_users ! 2]"
    by (simp add: users_or_empty_def example_stats_def example_users_def)
  note t = both_is_conjunction [of "Some example_stats" "[]"]
  from t have a: "filteredUsers (Some example_stats) F_both [] =
      filter (\<lambda>u. dl_pdf u \<and> dl_epub u) (users_or_empty (Some example_stats))"
    by blast
  from t have b: "filteredUsers_v1 (Some example_stats) V1_both =
      filter (\<lambda>u. dl_pdf u \<and> dl_epub u) (users_or_empty (Some example_stats))"
    by blast
  show ?thesis by (simp only: a b h)
qed

section \<open>Pagination\<close>

lemma totalPages_ge1: "1 \<le> totalPages fu"
  by (simp add: totalPages_def)

lemma safePage_range: "1 \<le> safePage fu page \<and> safePage fu page \<le> totalPages fu"
  using totalPages_ge1 [of fu] by (simp add: safePage_def)

lemma safePage_offset:
  assumes "fu \<noteq> []"
  shows "(safePage fu page - 1) * 20 < int (length fu)"
proof (cases "1 \<le> \<lceil>real (length fu) / 20\<rceil>")
  case True
  then have "totalPages fu = \<lceil>real (length fu) / 20\<rceil>"
    by (simp add: totalPages_def PAGE_SIZE_def)
  then have "safePage fu page \<le> \<lceil>real (length fu) / 20\<rceil>"
    using safePage_range [of fu page] by simp
  then have "real_of_int (safePage fu page) - 1 < real (length fu) / 20"
    by (simp only: le_ceiling_iff)
  then have "real_of_int ((safePage fu page - 1) * 20) < real_of_int (int (length fu))"
    by (simp add: field_simps)
  then show ?thesis by (simp only: of_int_less_iff)
next
  case False
  then have "totalPages fu = 1"
    by (simp add: totalPages_def PAGE_SIZE_def)
  then have "safePage fu page \<le> 1"
    using safePage_range [of fu page] by simp
  then have "(safePage fu page - 1) * 20 \<le> 0" by simp
  moreover have "0 < int (length fu)" using assms by simp
  ultimately show ?thesis by linarith
qed

lemma slice_from_offset:
  assumes "0 \<le> a" and "0 \<le> n"
  shows "slice xs a (a + n) = take (nat n) (drop (nat a) xs)"
proof -
  let ?len = "int (length xs)"
  have s: "slice xs a (a + n) =
      take (nat (max (min (a + n) ?len - min a ?len) 0)) (drop (nat (min a ?len)) xs)"
    using assms by (simp add: slice_def Let_def)
  show ?thesis
  proof (cases "a \<le> ?len")
    case True
    then have m: "min a ?len = a" by simp
    show ?thesis
    proof (cases "a + n \<le> ?len")
      case True
      then have "max (min (a + n) ?len - a) 0 = n" using assms by simp
      then show ?thesis by (simp only: s m)
    next
      case False
      then have "max (min (a + n) ?len - a) 0 = ?len - a" using True by simp
      then have "slice xs a (a + n) = take (nat (?len - a)) (drop (nat a) xs)"
        by (simp only: s m)
      also have "\<dots> = drop (nat a) xs" using assms by simp
      also have "\<dots> = take (nat n) (drop (nat a) xs)" using assms False by simp
      finally show ?thesis .
    qed
  next
    case False
    then have "min a ?len = ?len" by simp
    then have "slice xs a (a + n) = []" by (simp add: s)
    moreover have "drop (nat a) xs = []" using False by simp
    ultimately show ?thesis by simp
  qed
qed

lemma pagedUsers_take_drop:
  "pagedUsers fu page = take 20 (drop (nat ((safePage fu page - 1) * 20)) fu)"
proof -
  have "0 \<le> (safePage fu page - 1) * 20" using safePage_range [of fu page] by simp
  from slice_from_offset [OF this, of 20 fu] show ?thesis
    by (simp add: pagedUsers_def PAGE_SIZE_def)
qed

lemma length_pagedUsers:
  "int (length (pagedUsers fu page)) =
     min 20 (max 0 (int (length fu) - (safePage fu page - 1) * 20))"
proof -
  define a where "a = (safePage fu page - 1) * 20"
  have a0: "0 \<le> a" using safePage_range [of fu page] by (simp add: a_def)
  have "int (length fu - nat a) = max 0 (int (length fu) - a)"
    using a0 by linarith
  moreover have "length (pagedUsers fu page) = min (length fu - nat a) 20"
    by (simp add: pagedUsers_take_drop a_def)
  ultimately show ?thesis unfolding a_def by linarith
qed

lemma displayed_range:
  assumes "fu \<noteq> []"
  shows "1 \<le> startIdx fu page \<and> startIdx fu page \<le> endIdx fu page
     \<and> endIdx fu page \<le> int (length fu)
     \<and> endIdx fu page - startIdx fu page + 1 = int (length (pagedUsers fu page))"
proof -
  have a: "1 \<le> safePage fu page" using safePage_range by blast
  have b: "(safePage fu page - 1) * 20 < int (length fu)" using safePage_offset [OF assms] .
  have c: "length fu \<noteq> 0" using assms by simp
  show ?thesis using a b c
    by (auto simp: startIdx_def endIdx_def PAGE_SIZE_def length_pagedUsers min_def max_def)
qed

lemma subseq_take_drop: "subseq (take n (drop k xs)) xs"
proof -
  have "subseq (take n (drop k xs)) (drop k xs)"
    by (rule prefix_imp_subseq) (rule take_is_prefix)
  moreover have "subseq (drop k xs) xs"
    by (rule suffix_imp_subseq) (rule suffix_drop)
  ultimately show ?thesis by (rule subseq_order.trans)
qed

lemma string_of_nat_30: "string_of_nat 30 = ''30''"
  by code_simp

lemma endpoint_ebook_values:
  "endpoint_ebook GET = ''/api/ebook/stats?days=30''"
  "endpoint_ebook POST = ''/api/ebook/sync?days=30''"
  by (simp_all add: endpoint_ebook_def WINDOW_DAYS_def string_of_nat_30)

text \<open>
  Claim C5. Every filtered and paginated view is derived in the client from the rows
  of the snapshot. For every filter, search text and page number the displayed page
  is a subsequence of the snapshot's \<open>users\<close>; with the filter \<open>all\<close> and an empty
  search text the filtered list is the whole \<open>users\<close> array; the page is a slice
  (twenty rows from the offset of the clamped page) of the filtered list, and the two
  requests the view sends carry the window only, no page, filter or search parameter.
\<close>

theorem paged_view_from_snapshot:
  "subseq (pagedUsers (filteredUsers resp flt search) page) (users_or_empty resp)
   \<and> filteredUsers resp F_all [] = users_or_empty resp
   \<and> pagedUsers (filteredUsers resp flt search) page =
       take 20 (drop (nat ((safePage (filteredUsers resp flt search) page - 1) * 20))
                     (filteredUsers resp flt search))
   \<and> endpoint_ebook GET = ''/api/ebook/stats?days=30''
   \<and> endpoint_ebook POST = ''/api/ebook/sync?days=30''"
proof -
  have "subseq (pagedUsers (filteredUsers resp flt search) page) (filteredUsers resp flt search)"
    by (simp add: pagedUsers_take_drop subseq_take_drop)
  moreover have "subseq (filteredUsers resp flt search) (users_or_empty resp)"
    by (simp add: filteredUsers_def)
  ultimately have "subseq (pagedUsers (filteredUsers resp flt search) page) (users_or_empty resp)"
    by (rule subseq_order.trans)
  moreover have "filteredUsers resp F_all [] = users_or_empty resp"
    by (simp add: filteredUsers_def keep_user_def searchLower_of_empty)
  ultimately show ?thesis
    using pagedUsers_take_drop [of "filteredUsers resp flt search" page]
    by (simp add: endpoint_ebook_values)
qed

theorem paged_view_from_snapshot_witness:
  "subseq (pagedUsers (filteredUsers (Some example_stats) F_pdf ''EXAMPLE '') 3) example_users
   \<and> filteredUsers (Some example_stats) F_all [] = example_users"
proof -
  have h: "users_or_empty (Some example_stats) = example_users"
    by (simp add: users_or_empty_def example_stats_def)
  show ?thesis
    using paged_view_from_snapshot [of "Some example_stats" F_pdf "''EXAMPLE ''" 3]
    unfolding h by blast
qed

lemma safePage_clamp:
  "safePage fu page =
     (if page < 1 then 1 else if totalPages fu < page then totalPages fu else page)"
  using totalPages_ge1 [of fu] by (simp add: safePage_def)

text \<open>
  Claim C9. The pagination arithmetic is total and in range for every filtered list
  and every page value: \<open>totalPages\<close> is at least 1 (also for the empty list);
  \<open>safePage\<close> is the page clamped to the interval from 1 to \<open>totalPages\<close>, that is 1
  for a page below 1, \<open>totalPages\<close> for a page above it and the page itself in
  between, and so lies in that interval; the page shown has at most \<open>PAGE_SIZE\<close> = 20
  rows and is the slice of the filtered list at the offset of \<open>safePage\<close>; and for a
  non-empty list 1 \<le> \<open>startIdx\<close> \<le> \<open>endIdx\<close> \<le> length, with
  \<open>endIdx - startIdx + 1\<close> the number of rows on the page.
\<close>

theorem pagination_in_range:
  "1 \<le> totalPages fu
   \<and> safePage fu page =
       (if page < 1 then 1 else if totalPages fu < page then totalPages fu else page)
   \<and> 1 \<le> safePage fu page \<and> safePage fu page \<le> totalPages fu
   \<and> int (length (pagedUsers fu page)) \<le> PAGE_SIZE
   \<and> PAGE_SIZE = 20
   \<and> pagedUsers fu page =
       take (nat PAGE_SIZE) (drop (nat ((safePage fu page - 1) * PAGE_SIZE)) fu)
   \<and> (fu \<noteq> [] \<longrightarrow>
        1 \<le> startIdx fu page \<and> startIdx fu page \<le> endIdx fu page
        \<and> endIdx fu page \<le> int (length fu)
        \<and> endIdx fu page - startIdx fu page + 1 = int (length (pagedUsers fu page)))"
proof -
  have "int (length (pagedUsers fu page)) \<le> 20"
    by (simp add: length_pagedUsers)
  moreover have "safePage fu page =
       (if page < 1 then 1 else if totalPages fu < page then totalPages fu else page)"
    by (rule safePage_clamp)
  ultimately show ?thesis
    using totalPages_ge1 [of fu] safePage_range [of fu page] pagedUsers_take_drop [of fu page]
      displayed_range [of fu page]
    by (simp add: PAGE_SIZE_def)
qed

text \<open>
  On forty-five rows: page 2 is kept and shows rows 21 to 40, page 0 is raised to 1,
  and page 7 is lowered to 3, which shows rows 41 to 45.
\<close>

theorem pagination_in_range_witness:
  "example_rows \<noteq> []
   \<and> totalPages example_rows = 3
   \<and> safePage example_rows 2 = 2 \<and> safePage example_rows 0 = 1 \<and> safePage example_rows 7 = 3
   \<and> startIdx example_rows 2 = 21 \<and> endIdx example_rows 2 = 40
   \<and> length (pagedUsers example_rows 2) = 20
   \<and> startIdx example_rows 7 = 41 \<and> endIdx example_rows 7 = 45
   \<and> length (pagedUsers example_rows 7) = 5"
proof -
  have n: "example_rows \<noteq> []" by (simp add: example_rows_def)
  have l: "length example_rows = 45" by (simp add: example_rows_def)
  have t: "totalPages example_rows = 3" by (simp add: totalPages_def l PAGE_SIZE_def)
  from pagination_in_range [of example_rows 2]
  have p2: "safePage example_rows 2 = 2" by (simp add: t)
  from pagination_in_range [of example_rows 0]
  have p0: "safePage example_rows 0 = 1" by (simp add: t)
  from pagination_in_range [of example_rows 7]
  have p7: "safePage example_rows 7 = 3" by (simp add: t)
  have s2: "startIdx example_rows 2 = 21" by (simp add: startIdx_def p2 l PAGE_SIZE_def)
  have e2: "endIdx example_rows 2 = 40" by (simp add: endIdx_def p2 l PAGE_SIZE_def)
  have s7: "startIdx example_rows 7 = 41" by (simp add: startIdx_def p7 l PAGE_SIZE_def)
  have e7: "endIdx example_rows 7 = 45" by (simp add: endIdx_def p7 l PAGE_SIZE_def)
  from pagination_in_range [of example_rows 2] n
  have "endIdx example_rows 2 - startIdx example_rows 2 + 1
          = int (length (pagedUsers example_rows 2))"
    by blast
  then have l2: "length (pagedUsers example_rows 2) = 20" by (simp add: e2 s2)
  from pagination_in_range [of example_rows 7] n
  have "endIdx example_rows 7 - startIdx example_rows 7 + 1
          = int (length (pagedUsers example_rows 7))"
    by blast
  then have l7: "length (pagedUsers example_rows 7) = 5" by (simp add: e7 s7)
  show ?thesis using n t p2 p0 p7 s2 e2 l2 s7 e7 l7 by simp
qed

section \<open>Failing and cancelled fetches\<close>

lemma fetchStats_failure:
  assumes "apiFetch outcome = Inl e"
  shows "data (fetchStats fb outcome v) = None"
    and "error (fetchStats fb outcome v) = Some (error_message fb e)"
    and "loading (fetchStats fb outcome v) = loading v"
  using assms
  by (simp_all add: fetchStats_def fetchStats_settle_def fetchStats_begin_def setData_def setError_def)

text \<open>
  Claim C1, as the code has it. When a stats fetch or forced refresh fails,
  \<open>fetchStats\<close> clears the snapshot and exposes the message: for every component
  state, also one that holds previously fetched data, after a failing \<open>fetchStats\<close>
  call \<open>data\<close> is \<open>null\<close> and \<open>error\<close> is the message of the failure. The call leaves
  \<open>loading\<close> as it was; a failing initial load that was not cancelled ends with
  \<open>loading = false\<close>, and a failing refresh that was not cancelled still calls
  \<open>onRefreshComplete\<close>. So the view leaves its loading state and shows the error, over
  empty figures.
\<close>

theorem failed_fetch_clears_snapshot:
  "apiFetch outcome = Inl e \<Longrightarrow>
     data (fetchStats fb outcome v) = None
     \<and> error (fetchStats fb outcome v) = Some (error_message fb e)
     \<and> loading (fetchStats fb outcome v) = loading v
     \<and> loading (mount_effect_settle fb False (apiFetch outcome) v) = False
     \<and> data (mount_effect_settle fb False (apiFetch outcome) v) = None
     \<and> snd (refresh_effect_settle fb False (apiFetch outcome) v) = True"
  by (simp add: fetchStats_failure mount_effect_settle_def refresh_effect_settle_def
      fetchStats_settle_def setData_def setError_def setLoading_def)

theorem failed_fetch_clears_snapshot_witness:
  "apiFetch example_failure = Inl (ErrorObj ''event store unreachable'')
   \<and> data (fetchStats fallback_ebook example_failure example_ready) = None
   \<and> error (fetchStats fallback_ebook example_failure example_ready)
       = Some ''event store unreachable''"
proof -
  have h: "apiFetch example_failure = Inl (ErrorObj ''event store unreachable'')"
    by (simp add: apiFetch_def example_failure_def)
  show ?thesis
    using h failed_fetch_clears_snapshot [OF h, of fallback_ebook example_ready]
    by (simp add: error_message_def)
qed

text \<open>
  The claim as the spec words it (a failing call leaves the data unchanged) fails on a
  view that shows a snapshot when the server answers 503.
\<close>

theorem failed_fetch_keeps_snapshot_counterexample:
  "data (fetchStats fallback_ebook example_failure example_ready) \<noteq> data example_ready"
  by (simp add: fetchStats_def fetchStats_settle_def fetchStats_begin_def setData_def setError_def
      apiFetch_def example_failure_def example_ready_def)

lemma cancelled_mount_skips_setLoading:
  "mount_effect_settle fb True r v = fetchStats_settle fb r v"
  by (simp add: mount_effect_settle_def)

lemma fetchStats_settle_calls_setter:
  "setter_calls (fetchStats_settle fb r v) \<noteq> setter_calls v"
  by (cases r) (simp_all add: fetchStats_settle_def setData_def setError_def)

text \<open>
  Claim C2 asks that no setter is applied once the mount effect is cancelled. The
  effect guards \<open>setLoading(false)\<close> only: \<open>fetchStats\<close> does not see the flag. Mount the
  view, cancel the effect while the \<open>GET\<close> is pending, and let the response arrive:
  \<open>setData\<close> is called after the cancellation and the data changes from \<open>null\<close> to the
  response.
\<close>

theorem cancelled_mount_still_sets_state:
  "setter_calls
     (mount_effect_settle fallback_ebook True (apiFetch example_success) (mount_effect_begin view_init))
     = setter_calls (mount_effect_begin view_init) @ [SetData (Some example_stats)]
   \<and> data (mount_effect_begin view_init) = (None :: EbookStatsResponse option)
   \<and> data
     (mount_effect_settle fallback_ebook True (apiFetch example_success) (mount_effect_begin view_init))
     = Some example_stats"
  by (simp add: mount_effect_settle_def fetchStats_settle_def setData_def apiFetch_def
      example_success_def mount_effect_begin_def fetchStats_begin_def setError_def setLoading_def
      view_init_def)

section \<open>The refresh counter and the Sync button\<close>

lemma run_Nil: "run [] s = s"
  by (simp add: run_def)

lemma run_Cons: "run (e # es) s = run es (step e s)"
  by (simp add: run_def)

lemma handleSync_counters:
  "ebookRefreshSeq (handleSync a) = ebookRefreshSeq a + (if isEbookPage a then 1 else 0)"
  "pledgeRefreshSeq (handleSync a) =
     pledgeRefreshSeq a + (if \<not> isEbookPage a \<and> isPledgePage a then 1 else 0)"
  by (simp_all add: handleSync_def)

lemma not_both_pages: "isPledgePage a \<Longrightarrow> \<not> isEbookPage a"
  by (auto simp: isPledgePage_def isEbookPage_def)

lemma settle_counters:
  "refreshSeq_prop (app (settle i outcome s)) k = refreshSeq_prop (app s) k"
  by (cases k)
     (auto simp: settle_def refreshSeq_prop_def refresh_effect_settle_def onRefreshComplete_def Let_def
           split: option.splits effect_origin.splits view_kind.splits)

lemma step_counters_mono:
  "refreshSeq_prop (app s) k \<le> refreshSeq_prop (app (step e s)) k"
proof (cases e)
  case ClickSync
  then show ?thesis
    by (cases k) (simp_all add: app_event_def click_sync_def refreshSeq_prop_def handleSync_counters)
next
  case (Settle i outcome)
  then show ?thesis by (simp add: settle_counters)
qed (cases k; simp add: app_event_def navigate_def onPopState_def refreshSeq_prop_def)+

lemma run_counters_mono:
  "refreshSeq_prop (app s) k \<le> refreshSeq_prop (app (run es s)) k"
proof (induction es arbitrary: s)
  case Nil
  show ?case by (simp add: run_Nil)
next
  case (Cons e es)
  have "refreshSeq_prop (app s) k \<le> refreshSeq_prop (app (step e s)) k"
    by (rule step_counters_mono)
  also have "\<dots> \<le> refreshSeq_prop (app (run es (step e s))) k"
    by (rule Cons.IH)
  finally show ?case by (simp add: run_Cons)
qed

lemma init_counters: "refreshSeq_prop (app (system_init p)) k = 0"
  by (cases k) (simp_all add: system_init_def app_init_def refreshSeq_prop_def)

lemma reachable_counters_nonneg: "0 \<le> refreshSeq_prop (app (run es (system_init p))) k"
  using run_counters_mono [of "system_init p" k es] by (simp add: init_counters)

text \<open>
  Claim C7. The refresh counter of each view is monotonically increasing: it starts
  at 0; a sync trigger (\<open>handleSync\<close>) on the view's page adds exactly 1 to it; no
  event of the shell or of the view ever lowers it, over one step and over any run;
  the refresh effect issues no request for the value 0, and for every counter value
  the shell can reach it issues one exactly when the value is greater than 0.
\<close>

theorem refreshSeq_monotone:
  "ebookRefreshSeq (app_init p) = 0 \<and> pledgeRefreshSeq (app_init p) = 0
   \<and> (isEbookPage a1 \<longrightarrow> ebookRefreshSeq (handleSync a1) = ebookRefreshSeq a1 + 1)
   \<and> (isPledgePage a2 \<longrightarrow> pledgeRefreshSeq (handleSync a2) = pledgeRefreshSeq a2 + 1)
   \<and> refreshSeq_prop (app s) k \<le> refreshSeq_prop (app (step e s)) k
   \<and> refreshSeq_prop (app s) k \<le> refreshSeq_prop (app (run es s)) k
   \<and> refresh_effect_begin 0 v = None
   \<and> (refresh_effect_begin (refreshSeq_prop (app (run es (system_init p))) k) v \<noteq> None
        \<longleftrightarrow> 0 < refreshSeq_prop (app (run es (system_init p))) k)"
proof -
  have "0 \<le> refreshSeq_prop (app (run es (system_init p))) k"
    by (rule reachable_counters_nonneg)
  then have "refresh_effect_begin (refreshSeq_prop (app (run es (system_init p))) k) v \<noteq> None
        \<longleftrightarrow> 0 < refreshSeq_prop (app (run es (system_init p))) k"
    by (auto simp: refresh_effect_begin_def)
  then show ?thesis
    using step_counters_mono [of s k e] run_counters_mono [of s k es] not_both_pages [of a2]
    by (simp add: app_init_def handleSync_counters refresh_effect_begin_def)
qed

theorem refreshSeq_monotone_witness:
  "isEbookPage (app_init ''/ebook'')
   \<and> ebookRefreshSeq (handleSync (app_init ''/ebook'')) = 1
   \<and> isPledgePage (app_init ''/pledge-manager'')
   \<and> pledgeRefreshSeq (handleSync (app_init ''/pledge-manager'')) = 1"
proof -
  have e: "isEbookPage (app_init ''/ebook'')" by (simp add: isEbookPage_def app_init_def)
  have p: "isPledgePage (app_init ''/pledge-manager'')" by (simp add: isPledgePage_def app_init_def)
  have z: "ebookRefreshSeq (app_init ''/ebook'') = 0"
    "pledgeRefreshSeq (app_init ''/pledge-manager'') = 0"
    by (simp_all add: app_init_def)
  note t = refreshSeq_monotone [of "''/ebook''" "app_init ''/ebook''" "app_init ''/pledge-manager''"]
  from t e have "ebookRefreshSeq (handleSync (app_init ''/ebook'')) =
      ebookRefreshSeq (app_init ''/ebook'') + 1" by blast
  moreover from t p have "pledgeRefreshSeq (handleSync (app_init ''/pledge-manager'')) =
      pledgeRefreshSeq (app_init ''/pledge-manager'') + 1" by blast
  ultimately show ?thesis using e p z by simp
qed

lemma click_sync_while_syncing: "isSyncing a \<Longrightarrow> click_sync a = a"
  by (simp add: click_sync_def sync_button_disabled_def)

lemma click_sync_sets_flag:
  "sync_button_rendered a \<Longrightarrow> \<not> sync_button_disabled a \<Longrightarrow> isSyncing (click_sync a)"
  by (auto simp: click_sync_def sync_button_rendered_def isSubPage_def handleSync_def isSyncing_def
      isEbookPage_def isPledgePage_def)

lemma syncing_reset_only_on_settle:
  assumes "ebookSyncing (app s)" and "\<not> ebookSyncing (app (step e s))"
  shows "\<exists>i outcome. e = Settle i outcome"
  using assms
  by (cases e) (auto simp: app_event_def click_sync_def handleSync_def navigate_def onPopState_def
      split: if_splits)

text \<open>
  Claim C6 asks for at most one refresh in flight per view instance. The button does
  what the claim says of it (the three lemmas above: a click while syncing changes
  nothing, a click that gets through raises the flag, only a settling request lowers
  it), but the refresh effect also runs when a view is mounted with a counter that an
  earlier visit left above 0, and then the flag is down. On that trace the remounted
  view has one refresh in flight with the button enabled, and two after the click.
\<close>

theorem two_refreshes_after_remount:
  "refreshes_in_flight (run (butlast remount_trace) (system_init ''/ebook'')) = 1
   \<and> \<not> sync_button_disabled (app (run (butlast remount_trace) (system_init ''/ebook'')))
   \<and> last remount_trace = ClickSync
   \<and> refreshes_in_flight (run remount_trace (system_init ''/ebook'')) = 2"
  by code_simp

section \<open>Completion percentage\<close>

text \<open>The division is reached only with a positive divisor.\<close>

lemma percentage_division_cong:
  assumes "\<And>a b. 0 < b \<Longrightarrow> dv a b = dv' a b"
  shows "percentage dv ml tf s = percentage dv' ml tf s"
  using assms by (simp add: percentage_def split: option.splits)

text \<open>
  Claim C10. The completion percentage never divides by zero. Without a summary, and
  with a summary whose \<open>total_users\<close> is 0 or negative, the percentage is the string
  \<open>0\<close>; with \<open>total_users > 0\<close> it is \<open>toFixed(1)\<close> of
  \<open>(users_with_address / total_users) * 100\<close>. The division is evaluated only in that
  last case: whatever a division does on divisors that are not positive, the
  percentage is the same for every summary.
\<close>

theorem percentage_guarded:
  "percentage dv ml tf None = ''0''
   \<and> (total_users r1 \<le> 0 \<longrightarrow> percentage dv ml tf (Some r1) = ''0'')
   \<and> (0 < total_users r2 \<longrightarrow>
        percentage dv ml tf (Some r2)
          = tf (ml (dv (users_with_address r2) (total_users r2)) 100) 1)
   \<and> ((\<forall>a b. 0 < b \<longrightarrow> dv a b = dv' a b) \<longrightarrow>
        percentage dv ml tf s = percentage dv' ml tf s)"
  using percentage_division_cong [of dv dv' ml tf s]
  by (simp add: percentage_def)

text \<open>
  One user of four with an address: the quotient 0.25 and the product 25 are exact
  in doubles as well, and the view shows \<open>25.0\<close>. With no users the view shows \<open>0\<close>,
  and a division that answers 7 on every divisor that is not positive gives the same
  percentage.
\<close>

theorem percentage_guarded_witness:
  "total_users \<lparr>total_users = 0, users_with_address = 5\<rparr> \<le> 0
   \<and> 0 < total_users \<lparr>total_users = 4, users_with_address = 1\<rparr>
   \<and> percentage (\<lambda>a b. of_int a / of_int b :: rat) (\<lambda>x k. x * of_int k) toFixed_exact
         (Some \<lparr>total_users = 0, users_with_address = 5\<rparr>) = ''0''
   \<and> percentage (\<lambda>a b. of_int a / of_int b) (\<lambda>x k. x * of_int k) toFixed_exact
         (Some \<lparr>total_users = 4, users_with_address = 1\<rparr>) = ''25.0''
   \<and> percentage (\<lambda>a b. if 0 < b then of_int a / of_int b else 7) (\<lambda>x k. x * of_int k)
         toFixed_exact (Some \<lparr>total_users = 4, users_with_address = 1\<rparr>) = ''25.0''"
proof -
  have e: "toFixed_exact (1 / 4 * 100) 1 = ''25.0''" by code_simp
  have h: "\<forall>a b. 0 < b \<longrightarrow>
      (of_int a / of_int b :: rat) = (if 0 < b then of_int a / of_int b else 7)"
    by simp
  note t = percentage_guarded [of "\<lambda>a b. of_int a / of_int b" "\<lambda>x k. x * of_int k" toFixed_exact
      "\<lparr>total_users = 0, users_with_address = 5\<rparr>" "\<lparr>total_users = 4, users_with_address = 1\<rparr>"
      "\<lambda>a b. if 0 < b then of_int a / of_int b else 7"
      "Some \<lparr>total_users = 4, users_with_address = 1\<rparr>"]
  from t have z: "percentage (\<lambda>a b. of_int a / of_int b) (\<lambda>x k. x * of_int k) toFixed_exact
         (Some \<lparr>total_users = 0, users_with_address = 5\<rparr>) = ''0''"
    by simp
  from t have v: "percentage (\<lambda>a b. of_int a / of_int b) (\<lambda>x k. x * of_int k) toFixed_exact
         (Some \<lparr>total_users = 4, users_with_address = 1\<rparr>) = ''25.0''"
    using e by simp
  from t h have "percentage (\<lambda>a b. of_int a / of_int b) (\<lambda>x k. x * of_int k) toFixed_exact
         (Some \<lparr>total_users = 4, users_with_address = 1\<rparr>)
       = percentage (\<lambda>a b. if 0 < b then of_int a / of_int b else 7) (\<lambda>x k. x * of_int k)
         toFixed_exact (Some \<lparr>total_users = 4, users_with_address = 1\<rparr>)"
    by blast
  then have w: "percentage (\<lambda>a b. if 0 < b then of_int a / of_int b else 7) (\<lambda>x k. x * of_int k)
         toFixed_exact (Some \<lparr>total_users = 4, users_with_address = 1\<rparr>) = ''25.0''"
    using v by simp
  show ?thesis using z v w by simp
qed

section \<open>Single-flight refresh\<close>

lemma cache_run_Nil: "cache_run [] st = st"
  by (simp add: cache_run_def)

lemma cache_run_Cons: "cache_run (e # es) st = cache_run es (cache_step e st)"
  by (simp add: cache_run_def)

text \<open>While a recomputation for \<open>k\<close> is pending, calls for \<open>k\<close> attach to it.\<close>

lemma flight_pending:
  "no_completion k es \<Longrightarrow> flights st k = Some ws \<Longrightarrow>
     flights (cache_run es st) k = Some (ws @ callers_of k es)
     \<and> started (cache_run es st) k = started st k"
proof (induction es arbitrary: st ws)
  case Nil
  then show ?case by (simp add: cache_run_Nil)
next
  case (Cons e es)
  show ?case
  proof (cases e)
    case (Call k' c)
    from Cons.prems Call have nc: "no_completion k es" by simp
    show ?thesis
    proof (cases "k' = k")
      case True
      have f: "flights (cache_step e st) k = Some (ws @ [c])"
        and s: "started (cache_step e st) k = started st k"
        using Cons.prems Call True by (simp_all add: refresh_call_def)
      from Cons.IH [OF nc f] show ?thesis using s Call True by (simp add: cache_run_Cons)
    next
      case False
      have f: "flights (cache_step e st) k = Some ws"
        and s: "started (cache_step e st) k = started st k"
        using Cons.prems Call False by (simp_all add: refresh_call_def split: option.splits)
      from Cons.IH [OF nc f] show ?thesis using s Call False by (simp add: cache_run_Cons)
    qed
  next
    case (Done k' snap)
    with Cons.prems have ne: "k' \<noteq> k" and nc: "no_completion k es" by simp_all
    have f: "flights (cache_step e st) k = Some ws"
      and s: "started (cache_step e st) k = started st k"
      using Cons.prems Done ne by (simp_all add: refresh_done_def split: option.splits)
    from Cons.IH [OF nc f] show ?thesis using s Done by (simp add: cache_run_Cons)
  qed
qed

text \<open>From an idle key, the first call starts the one recomputation.\<close>

lemma flight_started_once:
  "no_completion k es \<Longrightarrow> flights st k = None \<Longrightarrow> callers_of k es \<noteq> [] \<Longrightarrow>
     flights (cache_run es st) k = Some (callers_of k es)
     \<and> started (cache_run es st) k = started st k + 1"
proof (induction es arbitrary: st)
  case Nil
  then show ?case by simp
next
  case (Cons e es)
  show ?case
  proof (cases e)
    case (Call k' c)
    from Cons.prems Call have nc: "no_completion k es" by simp
    show ?thesis
    proof (cases "k' = k")
      case True
      have f: "flights (cache_step e st) k = Some [c]"
        and s: "started (cache_step e st) k = started st k + 1"
        using Cons.prems Call True by (simp_all add: refresh_call_def)
      from flight_pending [OF nc f] show ?thesis using s Call True by (simp add: cache_run_Cons)
    next
      case False
      have f: "flights (cache_step e st) k = None"
        and s: "started (cache_step e st) k = started st k"
        using Cons.prems Call False by (simp_all add: refresh_call_def split: option.splits)
      from Cons.prems Call False have cs: "callers_of k es \<noteq> []" by simp
      from Cons.IH [OF nc f cs] show ?thesis using s Call False by (simp add: cache_run_Cons)
    qed
  next
    case (Done k' snap)
    with Cons.prems have ne: "k' \<noteq> k" and nc: "no_completion k es" and cs: "callers_of k es \<noteq> []"
      by simp_all
    have f: "flights (cache_step e st) k = None"
      and s: "started (cache_step e st) k = started st k"
      using Cons.prems Done ne by (simp_all add: refresh_done_def split: option.splits)
    from Cons.IH [OF nc f cs] show ?thesis using s Done by (simp add: cache_run_Cons)
  qed
qed

lemma resolve_all:
  "c \<in> set ws \<Longrightarrow> foldl (\<lambda>m c. m((k, c) \<mapsto> snap)) m ws (k, c) = Some snap"
  by (induction ws arbitrary: m rule: rev_induct) auto

lemma refresh_done_resolves:
  "flights st k = Some ws \<Longrightarrow> c \<in> set ws \<Longrightarrow>
     resolved (refresh_done k snap st) (k, c) = Some snap"
  by (simp add: refresh_done_def resolve_all)

lemma refresh_done_started: "started (refresh_done k snap st) = started st"
  by (simp add: refresh_done_def split: option.splits)

text \<open>
  Claim C3. Single-flight: for every Report Key \<open>k\<close> and every schedule in which one
  or more \<open>refresh(k)\<close> calls arrive while no recomputation for \<open>k\<close> completes (calls
  and completions for other keys may be interleaved), starting with no refresh for
  \<open>k\<close> in progress, exactly one recomputation for \<open>k\<close> is started, and when it
  completes with a snapshot every one of the calls resolves to that snapshot, which
  is also the one stored.
\<close>

theorem single_flight:
  assumes "flights st k = None" and "no_completion k es" and "callers_of k es \<noteq> []"
  shows "started (refresh_done k snap (cache_run es st)) k = started st k + 1
     \<and> (\<forall>c \<in> set (callers_of k es).
            resolved (refresh_done k snap (cache_run es st)) (k, c) = Some snap)
     \<and> stored (refresh_done k snap (cache_run es st)) k = Some snap
     \<and> flights (refresh_done k snap (cache_run es st)) k = None"
proof -
  from flight_started_once [OF assms(2) assms(1) assms(3)]
  have f: "flights (cache_run es st) k = Some (callers_of k es)"
    and s: "started (cache_run es st) k = started st k + 1" by simp_all
  show ?thesis
    using f s refresh_done_resolves [OF f]
    by (simp add: refresh_done_started) (simp add: refresh_done_def)
qed

theorem single_flight_witness:
  "flights (cache_init :: (string, nat) cache) ''ebook/30'' = None
   \<and> no_completion ''ebook/30'' example_schedule
   \<and> callers_of ''ebook/30'' example_schedule = [1, 2, 3]
   \<and> started (refresh_done ''ebook/30'' 42 (cache_run example_schedule cache_init)) ''ebook/30'' = 1
   \<and> resolved (refresh_done ''ebook/30'' 42 (cache_run example_schedule cache_init)) (''ebook/30'', 1)
       = Some 42
   \<and> resolved (refresh_done ''ebook/30'' 42 (cache_run example_schedule cache_init)) (''ebook/30'', 2)
       = Some 42
   \<and> resolved (refresh_done ''ebook/30'' 42 (cache_run example_schedule cache_init)) (''ebook/30'', 3)
       = Some 42"
proof -
  have h1: "flights (cache_init :: (string, nat) cache) ''ebook/30'' = None"
    by (simp add: cache_init_def)
  have h2: "no_completion ''ebook/30'' example_schedule"
    by (simp add: example_schedule_def)
  have h3: "callers_of ''ebook/30'' example_schedule = [1, 2, 3]"
    by (simp add: example_schedule_def)
  have h4: "callers_of ''ebook/30'' example_schedule \<noteq> []"
    using h3 by simp
  show ?thesis
    using h1 h2 h3 single_flight [OF h1 h2 h4, of 42] by (simp add: cache_init_def)
qed

section \<open>Cookie policy\<close>

text \<open>
  Claim C8. The cookie policy is a function of the configuration alone: for every
  configuration with a cookie domain set the attributes have \<open>Secure = true\<close> and
  \<open>SameSite = None\<close>; for every configuration with no cookie domain they have
  \<open>Secure = false\<close> and \<open>SameSite = Lax\<close>.
\<close>

theorem cookie_policy:
  "(cookie_domain cfg1 = Some d \<longrightarrow>
      secure (attributesFor cfg1) = True \<and> sameSite (attributesFor cfg1) = SameSite_None)
   \<and> (cookie_domain cfg2 = None \<longrightarrow>
      secure (attributesFor cfg2) = False \<and> sameSite (attributesFor cfg2) = SameSite_Lax)"
  by (simp add: attributesFor_def)

theorem cookie_policy_witness:
  "cookie_domain \<lparr>cookie_domain = Some ''.example.com''\<rparr> = Some ''.example.com''
   \<and> cookie_domain \<lparr>cookie_domain = None\<rparr> = None
   \<and> secure (attributesFor \<lparr>cookie_domain = Some ''.example.com''\<rparr>) = True
   \<and> sameSite (attributesFor \<lparr>cookie_domain = Some ''.example.com''\<rparr>) = SameSite_None
   \<and> secure (attributesFor \<lparr>cookie_domain = None\<rparr>) = False
   \<and> sameSite (attributesFor \<lparr>cookie_domain = None\<rparr>) = SameSite_Lax"
  using cookie_policy [of "\<lparr>cookie_domain = Some ''.example.com''\<rparr>" "''.example.com''"
      "\<lparr>cookie_domain = None\<rparr>"]
  by simp

end
